theory Spec2Isabelle
  imports Main
begin

section \<open>Data model of the query executor\<close>

text \<open>
  The development follows \<^verbatim>\<open>src/query-executor/query-executor-base.ts\<close>.

  An operation node is a tagged value: the executor only ever reads its \<open>kind\<close>
  discriminant; everything else a node carries is the opaque \<open>body\<close>.
\<close>

record 'b operation_node =
  kind :: string
  body :: 'b

text \<open>
  Anything can be thrown in JavaScript. A thrown value is either not an object
  (a string, a number, \<open>null\<close>, \<open>undefined\<close>, ...) or an object; of an object
  the executor reads and writes the \<open>stack\<close> property only. The constructor name, the
  message and the remaining own properties are what the object is and carries.

  What an assignment to the \<open>stack\<close> property does depends on the object. The module
  is strict code, so an assignment either \<open>Stores\<close> the value (an ordinary writable
  property), or the object \<open>Refuses\<close> it and the runtime throws a \<open>TypeError\<close> (a
  property that is not writable, as on a frozen object, or an accessor without a setter),
  or the object accepts the assignment and \<open>Discards\<close> the value (an accessor whose
  setter keeps nothing).
\<close>

datatype 'x js_value = Undefined | JsString string | JsOther 'x

datatype assignment = Stores | Refuses | Discards

datatype 'x thrown =
    Primitive 'x
  | Object string string "'x js_value" assignment "(string \<times> 'x) list"

text \<open>
  What the runtime contributes to \<open>extendStackTrace\<close>: the value of
  \<open>new Error().stack\<close> at line 109 (\<open>None\<close> for \<open>undefined\<close>), and the
  \<open>TypeError\<close> it throws when the assignment at line 118 is refused.
\<close>

record 'x runtime =
  new_Error_stack :: "string option"
  assignment_TypeError :: "'x thrown"

text \<open>
  Plugins, connections and connection providers are code outside the executor: they may
  throw, and they may have effects. A call is therefore a function from a world \<open>'w\<close>
  to an outcome (\<open>Inl\<close> what was thrown, or what a promise was rejected with, \<open>Inr\<close>
  the value returned or awaited) and the world after the call.
\<close>

type_synonym ('x, 'w, 'a) eff = "'w \<Rightarrow> ('x thrown + 'a) \<times> 'w"

text \<open>
  The \<open>KyselyPlugin\<close> interface. The source passes the arguments as one object,
  \<open>{ node, queryId }\<close> and \<open>{ result, queryId }\<close>; here they are curried.
\<close>

record ('b, 'i, 'r, 'x, 'w) plugin =
  plugin_transformQuery :: "'b operation_node \<Rightarrow> 'i \<Rightarrow> ('x, 'w, 'b operation_node) eff"
  plugin_transformResult :: "'r \<Rightarrow> 'i \<Rightarrow> ('x, 'w, 'r) eff"

text \<open>The one method of \<open>DatabaseConnection\<close> that the executor calls.\<close>

record ('q, 'r, 'x, 'w) database_connection =
  connection_executeQuery :: "'q \<Rightarrow> ('x, 'w, 'r) eff"

section \<open>Strings and errors of the runtime\<close>

text \<open>\<open>Array.prototype.join\<close> on an array of strings.\<close>

fun join :: "string \<Rightarrow> string list \<Rightarrow> string" where
  "join sep [] = []"
| "join sep [s] = s"
| "join sep (s # t # ss) = s @ sep @ join sep (t # ss)"

text \<open>
  \<open>new Error(message)\<close>. The runtime decides what the \<open>stack\<close> property of the new
  object holds; \<open>captured\<close> is that text, \<open>None\<close> in a runtime that gives errors no
  stack.
\<close>

definition new_Error :: "string option \<Rightarrow> string \<Rightarrow> 'x thrown" where
  "new_Error captured msg =
     Object ''Error'' msg (case captured of None \<Rightarrow> Undefined | Some s \<Rightarrow> JsString s)
       Stores []"

section \<open>The plugin chain over operation nodes\<close>

text \<open>
  \<open>QueryExecutorBase.transformQuery\<close>: the loop over \<open>this.#plugins\<close>, with the
  runtime check of the kind after every plugin call. A plugin that throws ends the loop
  with what it threw, since the source catches nothing here.
\<close>

fun transformQuery ::
  "('b, 'i, 'r, 'x, 'w) plugin list \<Rightarrow> string option \<Rightarrow> 'b operation_node \<Rightarrow> 'i
     \<Rightarrow> ('x, 'w, 'b operation_node) eff"
where
  "transformQuery [] captured node queryId w = (Inr node, w)"
| "transformQuery (plugin # plugins) captured node queryId w =
     (case plugin_transformQuery plugin node queryId w of
        (Inl err, w') \<Rightarrow> (Inl err, w')
      | (Inr transformedNode, w') \<Rightarrow>
          if kind transformedNode = kind node
          then transformQuery plugins captured transformedNode queryId w'
          else (Inl (new_Error captured
                  (join '' ''
                    [''KyselyPlugin.transformQuery must return a node'',
                     ''of the same kind that was given to it.'',
                     ''The plugin was given a '' @ kind node,
                     ''but it returned a '' @ kind transformedNode])), w'))"

text \<open>
  \<open>QueryExecutorBase.#transformResult\<close>: the same loop over \<open>this.#plugins\<close>,
  awaiting every plugin's result, with no check at all.
\<close>

fun transformResult ::
  "('b, 'i, 'r, 'x, 'w) plugin list \<Rightarrow> 'r \<Rightarrow> 'i \<Rightarrow> ('x, 'w, 'r) eff"
where
  "transformResult [] result queryId w = (Inr result, w)"
| "transformResult (plugin # plugins) result queryId w =
     (case plugin_transformResult plugin result queryId w of
        (Inl err, w') \<Rightarrow> (Inl err, w')
      | (Inr result', w') \<Rightarrow> transformResult plugins result' queryId w')"

section \<open>Continuing the stack trace\<close>

text \<open>
  Modelled from the spec: \<open>isObject\<close> of \<^verbatim>\<open>util/object-utils.js\<close>, which is
  not among the sources. The spec speaks of a failure that "exposes a textual diagnostic
  trace": the thrown value is an object, and its \<open>stack\<close> property is a string.
\<close>

fun isObject :: "'x thrown \<Rightarrow> bool" where
  "isObject (Primitive v) = False"
| "isObject (Object cls msg st access props) = True"

text \<open>
  Modelled from the spec: \<open>isString\<close> of \<^verbatim>\<open>util/object-utils.js\<close>, which is
  not among the sources: the value is textual.
\<close>

fun isString :: "'x js_value \<Rightarrow> bool" where
  "isString (JsString s) = True"
| "isString v = False"

text \<open>The property read \<open>obj.stack\<close>; a value that is not an object has none.\<close>

fun stack :: "'x thrown \<Rightarrow> 'x js_value" where
  "stack (Primitive v) = Undefined"
| "stack (Object cls msg st access props) = st"

definition isStackHolder :: "'x thrown \<Rightarrow> bool" where
  "isStackHolder obj = (isObject obj \<and> isString (stack obj))"

text \<open>
  \<open>String.prototype.split\<close> with a separator of one character: the pieces between the
  separators, so a string without the separator is its own single piece and the empty
  string splits into one empty piece.
\<close>

fun split :: "char \<Rightarrow> string \<Rightarrow> string list" where
  "split sep [] = [[]]"
| "split sep (c # cs) =
     (if c = sep then [] # split sep cs
      else (case split sep cs of
              [] \<Rightarrow> [[c]]
            | piece # pieces \<Rightarrow> (c # piece) # pieces))"

definition newline :: char where
  "newline = CHR 0x0A"

text \<open>
  The assignment \<open>err.stack += text\<close> of line 118: \<open>Inr\<close> the object after the
  assignment, \<open>Inl\<close> the \<open>TypeError\<close> of the runtime when the object refuses it. The
  assignment is only reached for a stack holder; on any other value the model leaves the
  value as it is.
\<close>

fun append_to_stack :: "'x thrown \<Rightarrow> 'x thrown \<Rightarrow> string \<Rightarrow> 'x thrown + 'x thrown" where
  "append_to_stack typeError (Object cls msg (JsString st) Stores props) text =
     Inr (Object cls msg (JsString (st @ text)) Stores props)"
| "append_to_stack typeError (Object cls msg (JsString st) Refuses props) text =
     Inl typeError"
| "append_to_stack typeError (Object cls msg (JsString st) Discards props) text =
     Inr (Object cls msg (JsString st) Discards props)"
| "append_to_stack typeError err text = Inr err"

text \<open>
  \<open>extendStackTrace\<close>: \<open>Inr\<close> the value it returns, \<open>Inl\<close> what it throws. The
  test \<open>!stackError.stack\<close> holds for \<open>undefined\<close> and for the empty string.
\<close>

definition extendStackTrace :: "'x runtime \<Rightarrow> 'x thrown \<Rightarrow> 'x thrown + 'x thrown" where
  "extendStackTrace rt err =
     (if isStackHolder err then
        (case new_Error_stack rt of
           None \<Rightarrow> Inr err
         | Some stackErrorStack \<Rightarrow>
             if stackErrorStack = [] then Inr err
             else
               (let stackExtension = join [newline] (drop 1 (split newline stackErrorStack))
                in append_to_stack (assignment_TypeError rt) err ([newline] @ stackExtension)))
      else Inr err)"

section \<open>Executing a compiled query\<close>

text \<open>
  The arrow function that \<open>executeQuery\<close> hands to \<open>provideConnection\<close>: execute the
  compiled query on the connection, then push the result through the plugins.
\<close>

definition executeQuery_consumer ::
  "('b, 'i, 'r, 'x, 'w) plugin list \<Rightarrow> 'q \<Rightarrow> 'i
     \<Rightarrow> ('q, 'r, 'x, 'w) database_connection \<Rightarrow> ('x, 'w, 'r) eff"
where
  "executeQuery_consumer plugins compiledQuery queryId connection w =
     (case connection_executeQuery connection compiledQuery w of
        (Inl err, w') \<Rightarrow> (Inl err, w')
      | (Inr result, w') \<Rightarrow> transformResult plugins result queryId w')"

text \<open>
  The statement \<open>throw extendStackTrace(err)\<close> of the \<open>catch\<close> block: what leaves
  the block is the value \<open>extendStackTrace\<close> returns, or what it throws.
\<close>

definition executeQuery_catch :: "'x runtime \<Rightarrow> 'x thrown \<Rightarrow> 'x thrown" where
  "executeQuery_catch rt err =
     (case extendStackTrace rt err of Inl typeError \<Rightarrow> typeError | Inr err' \<Rightarrow> err')"

text \<open>
  \<open>QueryExecutorBase.executeQuery\<close>. \<open>provideConnection\<close> is abstract in the class,
  so it is a parameter: any function from a consumer to an outcome. Whatever it throws
  or rejects with is caught once and handed to the \<open>catch\<close> block.
\<close>

definition executeQuery ::
  "((('q, 'r, 'x, 'w) database_connection \<Rightarrow> ('x, 'w, 'r) eff) \<Rightarrow> ('x, 'w, 'r) eff)
     \<Rightarrow> ('b, 'i, 'r, 'x, 'w) plugin list \<Rightarrow> 'x runtime \<Rightarrow> 'q \<Rightarrow> 'i
     \<Rightarrow> ('x, 'w, 'r) eff"
where
  "executeQuery provideConnection plugins rt compiledQuery queryId w =
     (case provideConnection (executeQuery_consumer plugins compiledQuery queryId) w of
        (Inr result, w') \<Rightarrow> (Inr result, w')
      | (Inl err, w') \<Rightarrow> (Inl (executeQuery_catch rt err), w'))"

section \<open>Executor objects\<close>

text \<open>\<open>NO_PLUGINS\<close>, the frozen empty array.\<close>

definition NO_PLUGINS :: "'p list" where
  "NO_PLUGINS = []"

text \<open>
  The constructor of \<open>QueryExecutorBase\<close>: what it stores in \<open>this.#plugins\<close>. The
  argument is optional and defaults to \<open>NO_PLUGINS\<close>.
\<close>

definition QueryExecutorBase_constructor :: "'p list option \<Rightarrow> 'p list" where
  "QueryExecutorBase_constructor plugins =
     (case plugins of None \<Rightarrow> NO_PLUGINS | Some ps \<Rightarrow> ps)"

text \<open>
  Modelled from the spec: the object a concrete executor is. The concrete subclasses
  are not among the sources; the spec gives an executor, besides the plugin sequence, a
  compiler, a dialect adapter and a connection provider. \<open>hash_plugins\<close> is the private
  field \<open>#plugins\<close> of the source. A heap is the list of the objects allocated so far,
  and a reference is an index into it.
\<close>

record ('p, 'c, 'a, 'v) executor_object =
  hash_plugins :: "'p list"
  compiler :: 'c
  adapter :: 'a
  connectionProvider :: 'v

text \<open>
  Modelled from the spec: the construction of a concrete executor, whose own constructor
  is not among the sources. The plugin sequence of the new object is what the
  constructor of \<open>QueryExecutorBase\<close> stores.
\<close>

definition new_executor ::
  "'c \<Rightarrow> 'a \<Rightarrow> 'v \<Rightarrow> 'p list option \<Rightarrow> ('p, 'c, 'a, 'v) executor_object list
     \<Rightarrow> nat \<times> ('p, 'c, 'a, 'v) executor_object list"
where
  "new_executor c a v plugins heap =
     (length heap,
      heap @ [\<lparr>hash_plugins = QueryExecutorBase_constructor plugins,
               compiler = c, adapter = a, connectionProvider = v\<rparr>])"

text \<open>The getter \<open>plugins\<close>; \<open>None\<close> for a reference to no object.\<close>

definition plugins :: "nat \<Rightarrow> ('p, 'c, 'a, 'v) executor_object list \<Rightarrow> 'p list option" where
  "plugins this heap = (if this < length heap then Some (hash_plugins (heap ! this)) else None)"

text \<open>
  Modelled from the spec: what the four derivation operations have in common. The source
  only declares them (\<open>abstract\<close>). The spec: each returns a new instance that shares
  the compiler and the adapter and has a modified plugin sequence; the receiver is not
  modified. \<open>f\<close> is the modification; the call fails on a reference to no object.
\<close>

definition derive ::
  "('p list \<Rightarrow> 'p list) \<Rightarrow> nat \<Rightarrow> ('p, 'c, 'a, 'v) executor_object list
     \<Rightarrow> (nat \<times> ('p, 'c, 'a, 'v) executor_object list) option"
where
  "derive f this heap =
     (if this < length heap
      then Some (length heap,
                 heap @ [(heap ! this)\<lparr>hash_plugins := f (hash_plugins (heap ! this))\<rparr>])
      else None)"

text \<open>
  Modelled from the spec: \<open>withPlugin\<close>, declared \<open>abstract\<close> in the source. The
  spec: "add one plugin to the end of the sequence".
\<close>

definition withPlugin ::
  "'p \<Rightarrow> nat \<Rightarrow> ('p, 'c, 'a, 'v) executor_object list
     \<Rightarrow> (nat \<times> ('p, 'c, 'a, 'v) executor_object list) option"
where
  "withPlugin plugin = derive (\<lambda>ps. ps @ [plugin])"

text \<open>
  Modelled from the spec: \<open>withPlugins\<close>, declared \<open>abstract\<close> in the source. The
  spec: "replace the entire plugin sequence".
\<close>

definition withPlugins ::
  "'p list \<Rightarrow> nat \<Rightarrow> ('p, 'c, 'a, 'v) executor_object list
     \<Rightarrow> (nat \<times> ('p, 'c, 'a, 'v) executor_object list) option"
where
  "withPlugins plugins' = derive (\<lambda>ps. plugins')"

text \<open>
  Modelled from the spec: \<open>withPluginAtFront\<close>, declared \<open>abstract\<close> in the source.
  The spec: "add one plugin to the front of the sequence".
\<close>

definition withPluginAtFront ::
  "'p \<Rightarrow> nat \<Rightarrow> ('p, 'c, 'a, 'v) executor_object list
     \<Rightarrow> (nat \<times> ('p, 'c, 'a, 'v) executor_object list) option"
where
  "withPluginAtFront plugin = derive (\<lambda>ps. plugin # ps)"

text \<open>
  Modelled from the spec: \<open>withoutPlugins\<close>, declared \<open>abstract\<close> in the source. The
  spec: "clear the plugin sequence to empty".
\<close>

definition withoutPlugins ::
  "nat \<Rightarrow> ('p, 'c, 'a, 'v) executor_object list
     \<Rightarrow> (nat \<times> ('p, 'c, 'a, 'v) executor_object list) option"
where
  "withoutPlugins = derive (\<lambda>ps. [])"

section \<open>Notions of the specification\<close>

text \<open>
  What the spec asks of a derivation called on \<open>this\<close> in \<open>heap\<close>: it returns a
  reference to a new object; every object of the heap, the receiver among them, is as
  it was; the new object has the plugin sequence \<open>ps'\<close> and the receiver's compiler,
  adapter and connection provider.
\<close>

definition derived_from ::
  "nat \<Rightarrow> ('p, 'c, 'a, 'v) executor_object list
     \<Rightarrow> (nat \<times> ('p, 'c, 'a, 'v) executor_object list) option \<Rightarrow> 'p list \<Rightarrow> bool"
where
  "derived_from this heap outcome ps' =
     (case outcome of
        None \<Rightarrow> False
      | Some (new, heap') \<Rightarrow>
          new = length heap \<and> new \<noteq> this \<and> length heap' = Suc (length heap)
          \<and> take (length heap) heap' = heap
          \<and> plugins this heap' = plugins this heap
          \<and> plugins new heap' = Some ps'
          \<and> compiler (heap' ! new) = compiler (heap ! this)
          \<and> adapter (heap' ! new) = adapter (heap ! this)
          \<and> connectionProvider (heap' ! new) = connectionProvider (heap ! this))"

text \<open>
  A run of derivations, each called on some receiver, one after the other on the same
  heap. A call on a reference to no object does nothing.
\<close>

datatype 'p derivation =
    WithPlugin 'p
  | WithPlugins "'p list"
  | WithPluginAtFront 'p
  | WithoutPlugins

fun call ::
  "'p derivation \<Rightarrow> nat \<Rightarrow> ('p, 'c, 'a, 'v) executor_object list
     \<Rightarrow> (nat \<times> ('p, 'c, 'a, 'v) executor_object list) option"
where
  "call (WithPlugin plugin) = withPlugin plugin"
| "call (WithPlugins plugins') = withPlugins plugins'"
| "call (WithPluginAtFront plugin) = withPluginAtFront plugin"
| "call WithoutPlugins = withoutPlugins"

fun calls ::
  "('p derivation \<times> nat) list \<Rightarrow> ('p, 'c, 'a, 'v) executor_object list
     \<Rightarrow> ('p, 'c, 'a, 'v) executor_object list"
where
  "calls [] heap = heap"
| "calls ((d, this) # rest) heap =
     (case call d this heap of
        None \<Rightarrow> calls rest heap
      | Some (new, heap') \<Rightarrow> calls rest heap')"

text \<open>
  Sequencing of two calls: the second runs on what the first returned, in the world the
  first left, and does not run when the first threw.
\<close>

definition and_then ::
  "('x thrown + 'a) \<times> 'w \<Rightarrow> ('a \<Rightarrow> ('x, 'w, 'c) eff) \<Rightarrow> ('x thrown + 'c) \<times> 'w"
where
  "and_then out f = (case out of (Inl err, w) \<Rightarrow> (Inl err, w) | (Inr a, w) \<Rightarrow> f a w)"

text \<open>
  The error the spec calls \<open>StructuralViolation\<close>: an \<open>Error\<close> whose message names
  the kind the plugin was given and the kind it returned.
\<close>

definition StructuralViolation :: "string option \<Rightarrow> string \<Rightarrow> string \<Rightarrow> 'x thrown" where
  "StructuralViolation captured expected actual =
     Object ''Error''
       (''KyselyPlugin.transformQuery must return a node of the same kind that was given to it. The plugin was given a ''
          @ expected @ '' but it returned a '' @ actual)
       (case captured of None \<Rightarrow> Undefined | Some s \<Rightarrow> JsString s) Stores []"

text \<open>The check the spec asks for after every plugin call on a node.\<close>

definition check_kind ::
  "string option \<Rightarrow> 'b operation_node \<Rightarrow> 'b operation_node \<Rightarrow> ('x, 'w, 'b operation_node) eff"
where
  "check_kind captured given returned w =
     (if kind returned = kind given then (Inr returned, w)
      else (Inl (StructuralViolation captured (kind given) (kind returned)), w))"


text \<open>
  Two thrown values are the same failure up to the diagnostic trace: the same value if
  neither is an object, otherwise the same constructor, message and own properties, and
  the same behaviour of the \<open>stack\<close> property under assignment.
\<close>

fun same_failure :: "'x thrown \<Rightarrow> 'x thrown \<Rightarrow> bool" where
  "same_failure (Primitive a) (Primitive b) = (a = b)"
| "same_failure (Object cls msg st access props) (Object cls' msg' st' access' props') =
     (cls = cls' \<and> msg = msg' \<and> access = access' \<and> props = props')"
| "same_failure a b = False"

text \<open>The text of the trace of a stack holder, and its lines.\<close>

fun trace :: "'x thrown \<Rightarrow> string" where
  "trace (Object cls msg (JsString st) access props) = st"
| "trace err = []"

text \<open>What an assignment to the \<open>stack\<close> property of a thrown value does.\<close>

fun stack_assignment :: "'x thrown \<Rightarrow> assignment" where
  "stack_assignment (Primitive v) = Refuses"
| "stack_assignment (Object cls msg st access props) = access"

definition trace_lines :: "'x thrown \<Rightarrow> string list" where
  "trace_lines err = split newline (trace err)"

section \<open>Example collaborators\<close>

text \<open>
  Collaborators for the concrete runs below. The world is a log of the calls made; a
  node's body and a result are lists of tags.
\<close>

definition tagging_plugin :: "string \<Rightarrow> (string list, nat, string list, nat, string list) plugin" where
  "tagging_plugin name =
     \<lparr>plugin_transformQuery = (\<lambda>node queryId w.
          (Inr (node\<lparr>body := body node @ [name]\<rparr>), w @ [''query:'' @ name])),
      plugin_transformResult = (\<lambda>result queryId w.
          (Inr (result @ [name]), w @ [''result:'' @ name]))\<rparr>"

text \<open>A plugin that answers every node with a delete node.\<close>

definition delete_plugin :: "(string list, nat, string list, nat, string list) plugin" where
  "delete_plugin =
     \<lparr>plugin_transformQuery = (\<lambda>node queryId w.
          (Inr (node\<lparr>kind := ''DeleteQueryNode''\<rparr>), w @ [''query:delete''])),
      plugin_transformResult = (\<lambda>result queryId w. (Inr result, w @ [''result:delete'']))\<rparr>"

definition boom :: "nat thrown" where
  "boom =
     Object ''Error'' ''boom'' (JsString (''Error: boom'' @ [newline] @ ''    at run'')) Stores []"

text \<open>The same error, frozen before it is thrown.\<close>

definition frozen_boom :: "nat thrown" where
  "frozen_boom =
     Object ''Error'' ''boom'' (JsString (''Error: boom'' @ [newline] @ ''    at run'')) Refuses []"


definition echo_connection :: "(string, string list, nat, string list) database_connection" where
  "echo_connection =
     \<lparr>connection_executeQuery = (\<lambda>compiledQuery w. (Inr [compiledQuery], w @ [''execute'']))\<rparr>"

definition failing_connection :: "(string, string list, nat, string list) database_connection" where
  "failing_connection =
     \<lparr>connection_executeQuery = (\<lambda>compiledQuery w. (Inl boom, w @ [''execute'']))\<rparr>"

definition throwing_frozen_connection ::
  "(string, string list, nat, string list) database_connection"
where
  "throwing_frozen_connection =
     \<lparr>connection_executeQuery = (\<lambda>compiledQuery w. (Inl frozen_boom, w @ [''execute'']))\<rparr>"

text \<open>
  A provider as the spec describes one: it acquires the connection, runs the consumer
  once, releases the connection and hands back what the consumer returned or threw.
\<close>

definition scoped_provider ::
  "('q, 'r, 'x, string list) database_connection
     \<Rightarrow> (('q, 'r, 'x, string list) database_connection \<Rightarrow> ('x, string list, 'r) eff)
     \<Rightarrow> ('x, string list, 'r) eff"
where
  "scoped_provider connection consumer w =
     (case consumer connection (w @ [''acquire'']) of (out, w') \<Rightarrow> (out, w' @ [''release'']))"

text \<open>A provider that fails to acquire a connection, throwing a value that is no object.\<close>

definition unavailable_provider ::
  "((string, string list, nat, string list) database_connection
       \<Rightarrow> (nat, string list, string list) eff)
     \<Rightarrow> (nat, string list, string list) eff"
where
  "unavailable_provider consumer w = (Inl (Primitive 42), w @ [''acquire''])"

text \<open>A stack as a runtime captures it inside \<open>extendStackTrace\<close>.\<close>

definition captured_here :: string where
  "captured_here = ''Error'' @ [newline] @ ''    at extendStackTrace''"

text \<open>The \<open>TypeError\<close> of a refused assignment.\<close>

definition read_only_stack :: "nat thrown" where
  "read_only_stack =
     Object ''TypeError'' ''Cannot assign to read only property stack of object''
       (JsString (''TypeError: Cannot assign to read only property stack of object''
          @ [newline] @ ''    at extendStackTrace'')) Stores []"

text \<open>A runtime that gives errors a stack, and one that gives them none.\<close>

definition stack_runtime :: "nat runtime" where
  "stack_runtime =
     \<lparr>new_Error_stack = Some captured_here, assignment_TypeError = read_only_stack\<rparr>"

definition bare_runtime :: "nat runtime" where
  "bare_runtime = \<lparr>new_Error_stack = None, assignment_TypeError = read_only_stack\<rparr>"

definition select_node :: "string list operation_node" where
  "select_node = \<lparr>kind = ''SelectQueryNode'', body = []\<rparr>"

definition update_node :: "string list operation_node" where
  "update_node = \<lparr>kind = ''UpdateQueryNode'', body = []\<rparr>"

section \<open>Sequencing and the two chains\<close>

lemma and_then_Inl [simp]: "and_then (Inl e, w) f = (Inl e, w)"
  by (simp add: and_then_def)

lemma and_then_Inr [simp]: "and_then (Inr a, w) f = f a w"
  by (simp add: and_then_def)

lemma foldl_and_then_Inl:
  "foldl (\<lambda>out p. and_then out (g p)) (Inl e, w) ps = (Inl e, w)"
  by (induction ps) simp_all

lemma transformQuery_keeps_kind:
  "transformQuery ps captured n qid w = (Inr n', w') \<Longrightarrow> kind n' = kind n"
proof (induction ps arbitrary: n w)
  case Nil
  then show ?case by simp
next
  case (Cons p ps)
  then show ?case
    by (auto split: prod.splits sum.splits if_splits)
qed

lemma transformQuery_append:
  "transformQuery (ps @ qs) captured n qid w =
     and_then (transformQuery ps captured n qid w) (\<lambda>m. transformQuery qs captured m qid)"
proof (induction ps arbitrary: n w)
  case Nil
  show ?case by simp
next
  case (Cons p ps)
  then show ?case by (simp split: prod.splits sum.splits)
qed

lemma transformResult_append:
  "transformResult (ps @ qs) r qid w =
     and_then (transformResult ps r qid w) (\<lambda>r'. transformResult qs r' qid)"
proof (induction ps arbitrary: r w)
  case Nil
  show ?case by simp
next
  case (Cons p ps)
  then show ?case by (simp split: prod.splits sum.splits)
qed

lemma kind_message:
  "new_Error captured
     (join '' ''
        [''KyselyPlugin.transformQuery must return a node'',
         ''of the same kind that was given to it.'',
         ''The plugin was given a '' @ expected,
         ''but it returned a '' @ actual])
   = StructuralViolation captured expected actual"
  by (simp add: new_Error_def StructuralViolation_def)

lemma transformQuery_Cons:
  "transformQuery (p # ps) captured n qid w =
     and_then (and_then (plugin_transformQuery p n qid w) (check_kind captured n))
       (\<lambda>m. transformQuery ps captured m qid)"
proof -
  obtain out w1 where call: "plugin_transformQuery p n qid w = (out, w1)"
    by (cases "plugin_transformQuery p n qid w")
  show ?thesis
  proof (cases out)
    case (Inl e)
    with call show ?thesis by simp
  next
    case (Inr m)
    with call show ?thesis
      unfolding transformQuery.simps kind_message
      by (simp add: check_kind_def)
  qed
qed

lemma and_then_transformQuery_Nil:
  "and_then out (\<lambda>m. transformQuery [] captured m qid) = out"
  by (simp add: and_then_def split: prod.splits sum.splits)

lemma transformQuery_single:
  "transformQuery [p] captured n qid w =
     and_then (plugin_transformQuery p n qid w) (check_kind captured n)"
  by (simp only: transformQuery_Cons and_then_transformQuery_Nil)

lemma transformResult_foldl:
  "transformResult ps r qid w =
     foldl (\<lambda>out p. and_then out (\<lambda>r'. plugin_transformResult p r' qid)) (Inr r, w) ps"
proof (induction ps arbitrary: r w)
  case Nil
  show ?case by simp
next
  case (Cons p ps)
  obtain out w1 where call: "plugin_transformResult p r qid w = (out, w1)"
    by (cases "plugin_transformResult p r qid w")
  show ?case
  proof (cases out)
    case (Inl e)
    with call show ?thesis by (simp add: foldl_and_then_Inl)
  next
    case (Inr r1)
    with call Cons.IH [of r1 w1] show ?thesis by simp
  qed
qed




section \<open>Splitting and joining lines\<close>

lemma split_not_Nil [simp]: "split sep s \<noteq> []"
  by (induction s) (auto split: list.splits)

lemma split_no_sep: "piece \<in> set (split sep s) \<Longrightarrow> sep \<notin> set piece"
proof (induction s arbitrary: piece)
  case Nil
  then show ?case by simp
next
  case (Cons c cs)
  then show ?case
    by (cases "split sep cs") (auto split: if_splits)
qed

lemma split_append_sep:
  "split sep (a @ sep # b) = split sep a @ split sep b"
proof (induction a)
  case Nil
  show ?case by simp
next
  case (Cons c cs)
  then show ?case
    by (cases "split sep cs") auto
qed

lemma split_without_sep: "sep \<notin> set s \<Longrightarrow> split sep s = [s]"
  by (induction s) auto

lemma split_join:
  "pieces \<noteq> [] \<Longrightarrow> \<forall>piece \<in> set pieces. sep \<notin> set piece
     \<Longrightarrow> split sep (join [sep] pieces) = pieces"
proof (induction pieces rule: induct_list012)
  case 1
  then show ?case by simp
next
  case (2 s)
  then show ?case by (simp add: split_without_sep)
next
  case (3 s t ss)
  then show ?case by (simp add: split_append_sep split_without_sep)
qed

lemma split_extension:
  "split sep (join [sep] (drop 1 (split sep s))) =
     (case drop 1 (split sep s) of [] \<Rightarrow> [[]] | piece # pieces \<Rightarrow> piece # pieces)"
proof (cases "drop 1 (split sep s)")
  case Nil
  then show ?thesis by simp
next
  case (Cons piece pieces)
  have "\<forall>x \<in> set (drop 1 (split sep s)). sep \<notin> set x"
    by (meson in_set_dropD split_no_sep)
  with Cons show ?thesis
    by (simp add: split_join del: drop_Suc_Cons)
qed

section \<open>The claims about the chain over nodes\<close>

text \<open>
  Claim C1. If every plugin of the sequence, whatever node and world it is called with,
  returns a node of the kind it was given, then \<open>transformQuery\<close> returns, and what
  it returns is the left fold of the plugins' query-transforms over the node: every
  plugin is applied once, in the order of the sequence, to what the plugin before it
  returned, in the world that plugin left.
\<close>

theorem transformQuery_applies_plugins_in_order:
  assumes "\<forall>p \<in> set ps. \<forall>m v. \<exists>m' v'.
             plugin_transformQuery p m qid v = (Inr m', v') \<and> kind m' = kind m"
  shows "(\<exists>n' w'. transformQuery ps captured n qid w = (Inr n', w')) \<and>
         transformQuery ps captured n qid w =
           foldl (\<lambda>out p. and_then out (\<lambda>m. plugin_transformQuery p m qid)) (Inr n, w) ps"
  using assms
proof (induction ps arbitrary: n w)
  case Nil
  show ?case by simp
next
  case (Cons p ps)
  from Cons.prems obtain m' v' where
    call: "plugin_transformQuery p n qid w = (Inr m', v')" and same: "kind m' = kind n"
    by (meson list.set_intros(1))
  from Cons.prems have rest: "\<forall>p \<in> set ps. \<forall>m v. \<exists>m' v'.
      plugin_transformQuery p m qid v = (Inr m', v') \<and> kind m' = kind m"
    by simp
  from Cons.IH [OF rest, of m' v'] obtain n' w' where
    returns: "transformQuery ps captured m' qid v' = (Inr n', w')" and
    folded: "transformQuery ps captured m' qid v' =
      foldl (\<lambda>out p. and_then out (\<lambda>m. plugin_transformQuery p m qid)) (Inr m', v') ps"
    by blast
  from call same returns have "transformQuery (p # ps) captured n qid w = (Inr n', w')"
    by simp
  moreover from call same folded have "transformQuery (p # ps) captured n qid w =
      foldl (\<lambda>out p. and_then out (\<lambda>m. plugin_transformQuery p m qid)) (Inr n, w) (p # ps)"
    by simp
  ultimately show ?case by blast
qed

text \<open>
  The chain \<open>[upper, limit]\<close> on a select node: both tags are on the node, and the log
  shows one call of each plugin, \<open>upper\<close> first.
\<close>

theorem transformQuery_applies_plugins_in_order_witness:
  "transformQuery [tagging_plugin ''upper'', tagging_plugin ''limit''] None select_node 7 []
     = (Inr \<lparr>kind = ''SelectQueryNode'', body = [''upper'', ''limit'']\<rparr>,
        [''query:upper'', ''query:limit''])"
proof -
  have pres: "\<forall>p \<in> set [tagging_plugin ''upper'', tagging_plugin ''limit'']. \<forall>m v. \<exists>m' v'.
      plugin_transformQuery p m (7::nat) v = (Inr m', v') \<and> kind m' = kind m"
    by (simp add: tagging_plugin_def)
  from transformQuery_applies_plugins_in_order [OF pres, of None select_node "[]"]
  have "transformQuery [tagging_plugin ''upper'', tagging_plugin ''limit''] None select_node 7 []
      = foldl (\<lambda>out p. and_then out (\<lambda>m. plugin_transformQuery p m 7)) (Inr select_node, [])
          [tagging_plugin ''upper'', tagging_plugin ''limit'']"
    by blast
  also have "\<dots> = (Inr \<lparr>kind = ''SelectQueryNode'', body = [''upper'', ''limit'']\<rparr>,
        [''query:upper'', ''query:limit''])"
    by (simp add: tagging_plugin_def select_node_def)
  finally show ?thesis .
qed

text \<open>
  Claim C2. When the plugins before \<open>p\<close> have run and \<open>p\<close> returns a node of another
  kind than the node it was given, \<open>transformQuery\<close> throws the
  \<open>StructuralViolation\<close> error naming the kind given and the kind returned. The world
  is the one \<open>p\<close> left and nothing depends on the plugins after \<open>p\<close>: none of them
  is called. The outcome is the error, not a node. The kind given to \<open>p\<close> is the kind
  of the node the chain started from.
\<close>

theorem transformQuery_kind_violation:
  assumes "transformQuery pre captured n qid w = (Inr m, w1)"
    and "plugin_transformQuery p m qid w1 = (Inr m', w2)"
    and "kind m' \<noteq> kind m"
  shows "transformQuery (pre @ p # post) captured n qid w =
           (Inl (StructuralViolation captured (kind m) (kind m')), w2) \<and> kind m = kind n"
proof -
  have "transformQuery (pre @ p # post) captured n qid w =
      and_then (transformQuery pre captured n qid w) (\<lambda>k. transformQuery (p # post) captured k qid)"
    by (rule transformQuery_append)
  also have "\<dots> = transformQuery (p # post) captured m qid w1"
    using assms(1) by simp
  also have "\<dots> = and_then (and_then (plugin_transformQuery p m qid w1) (check_kind captured m))
       (\<lambda>k. transformQuery post captured k qid)"
    by (rule transformQuery_Cons)
  also have "\<dots> = (Inl (StructuralViolation captured (kind m) (kind m')), w2)"
    using assms(2,3) by (simp add: check_kind_def)
  finally have "transformQuery (pre @ p # post) captured n qid w =
           (Inl (StructuralViolation captured (kind m) (kind m')), w2)" .
  moreover from assms(1) have "kind m = kind n"
    by (rule transformQuery_keeps_kind)
  ultimately show ?thesis by simp
qed

text \<open>
  The scenario of the spec: a plugin that answers an update node with a delete node,
  between two other plugins. The log ends with the offending call.
\<close>

theorem transformQuery_kind_violation_witness:
  "transformQuery ([tagging_plugin ''upper''] @ delete_plugin # [tagging_plugin ''limit''])
       None update_node 7 []
     = (Inl (Object ''Error''
          ''KyselyPlugin.transformQuery must return a node of the same kind that was given to it. The plugin was given a UpdateQueryNode but it returned a DeleteQueryNode''
          Undefined Stores []),
        [''query:upper'', ''query:delete''])"
proof -
  have pre: "transformQuery [tagging_plugin ''upper''] None update_node (7::nat) []
      = (Inr \<lparr>kind = ''UpdateQueryNode'', body = [''upper'']\<rparr>, [''query:upper''])"
    by (simp add: tagging_plugin_def update_node_def)
  have call: "plugin_transformQuery delete_plugin
        \<lparr>kind = ''UpdateQueryNode'', body = [''upper'']\<rparr> (7::nat) [''query:upper'']
      = (Inr \<lparr>kind = ''DeleteQueryNode'', body = [''upper'']\<rparr>, [''query:upper'', ''query:delete''])"
    by (simp add: delete_plugin_def)
  have diff: "kind \<lparr>kind = ''DeleteQueryNode'', body = [''upper'']\<rparr>
      \<noteq> kind \<lparr>kind = ''UpdateQueryNode'', body = [''upper'']\<rparr>"
    by simp
  from transformQuery_kind_violation [OF pre call diff, of "[tagging_plugin ''limit'']"]
  show ?thesis
    by (simp add: StructuralViolation_def)
qed

text \<open>
  Claim C10. Whatever the plugins are, a node that \<open>transformQuery\<close> returns has the
  kind of the node the chain was given.
\<close>

theorem transformQuery_returns_same_kind:
  "transformQuery ps captured n qid w = (Inr n', w') \<Longrightarrow> kind n' = kind n"
proof (induction ps arbitrary: n w)
  case Nil
  then show ?case by simp
next
  case (Cons p ps)
  obtain out v where call: "plugin_transformQuery p n qid w = (out, v)"
    by (cases "plugin_transformQuery p n qid w")
  show ?case
  proof (cases out)
    case (Inl e)
    with call Cons.prems show ?thesis by simp
  next
    case (Inr m)
    show ?thesis
    proof (cases "kind m = kind n")
      case True
      with call Inr Cons.prems have "transformQuery ps captured m qid v = (Inr n', w')"
        by simp
      then have "kind n' = kind m" by (rule Cons.IH)
      with True show ?thesis by simp
    next
      case False
      with call Inr Cons.prems show ?thesis by simp
    qed
  qed
qed

theorem transformQuery_returns_same_kind_witness:
  "transformQuery [tagging_plugin ''upper''] None select_node 7 []
     = (Inr \<lparr>kind = ''SelectQueryNode'', body = [''upper'']\<rparr>, [''query:upper''])
   \<and> kind \<lparr>kind = ''SelectQueryNode'', body = [''upper'']\<rparr> = kind select_node"
proof -
  have run: "transformQuery [tagging_plugin ''upper''] None select_node (7::nat) []
     = (Inr \<lparr>kind = ''SelectQueryNode'', body = [''upper'']\<rparr>, [''query:upper''])"
    by (simp add: tagging_plugin_def select_node_def)
  from transformQuery_returns_same_kind [OF run] run show ?thesis by simp
qed

section \<open>The claims about the chain over results\<close>

text \<open>
  Claim C3. \<open>transformResult\<close> is the left fold of the plugins' result-transforms over
  the result, in the order of the sequence: each plugin gets what the one before it
  returned, and whatever a plugin returns is taken as it is, with no check. The order is
  the order of \<open>transformQuery\<close>: in both chains the plugin registered last runs last,
  on the outcome of the chain of the plugins before it.
\<close>

theorem transformResult_in_registration_order:
  "transformResult ps r qid w =
     foldl (\<lambda>out p. and_then out (\<lambda>r'. plugin_transformResult p r' qid)) (Inr r, w) ps
   \<and> transformResult (ps @ [p]) r qid w =
       and_then (transformResult ps r qid w) (\<lambda>r'. plugin_transformResult p r' qid)
   \<and> transformQuery (ps @ [p]) captured n qid w =
       and_then (transformQuery ps captured n qid w)
         (\<lambda>m v. and_then (plugin_transformQuery p m qid v) (check_kind captured m))"
proof (intro conjI)
  show "transformResult ps r qid w =
     foldl (\<lambda>out p. and_then out (\<lambda>r'. plugin_transformResult p r' qid)) (Inr r, w) ps"
    by (rule transformResult_foldl)
next
  have "transformResult [p] r' qid = plugin_transformResult p r' qid" for r'
    by (rule ext) (simp split: prod.splits sum.splits)
  then show "transformResult (ps @ [p]) r qid w =
       and_then (transformResult ps r qid w) (\<lambda>r'. plugin_transformResult p r' qid)"
    by (simp add: transformResult_append)
next
  have "transformQuery [p] captured m qid =
      (\<lambda>v. and_then (plugin_transformQuery p m qid v) (check_kind captured m))" for m
    by (rule ext) (rule transformQuery_single)
  then show "transformQuery (ps @ [p]) captured n qid w =
       and_then (transformQuery ps captured n qid w)
         (\<lambda>m v. and_then (plugin_transformQuery p m qid v) (check_kind captured m))"
    by (simp only: transformQuery_append)
qed

text \<open>
  The chain \<open>[upper, limit]\<close> on the empty result calls \<open>upper\<close> first; on the
  reversed sequence the outcome is another one.
\<close>

theorem transformResult_in_registration_order_witness:
  "transformResult [tagging_plugin ''upper'', tagging_plugin ''limit''] [] 7 []
     = (Inr [''upper'', ''limit''], [''result:upper'', ''result:limit''])
   \<and> transformResult (rev [tagging_plugin ''upper'', tagging_plugin ''limit'']) [] 7 []
     \<noteq> transformResult [tagging_plugin ''upper'', tagging_plugin ''limit''] [] 7 []"
proof -
  from transformResult_in_registration_order
    [of "[tagging_plugin ''upper'', tagging_plugin ''limit'']" "[]" 7 "[]"]
  have "transformResult [tagging_plugin ''upper'', tagging_plugin ''limit''] [] 7 []
      = foldl (\<lambda>out p. and_then out (\<lambda>r'. plugin_transformResult p r' 7)) (Inr [], [])
          [tagging_plugin ''upper'', tagging_plugin ''limit'']"
    by blast
  also have "\<dots> = (Inr [''upper'', ''limit''], [''result:upper'', ''result:limit''])"
    by (simp add: tagging_plugin_def)
  finally have run: "transformResult [tagging_plugin ''upper'', tagging_plugin ''limit''] [] 7 []
     = (Inr [''upper'', ''limit''], [''result:upper'', ''result:limit''])" .
  have "transformResult (rev [tagging_plugin ''upper'', tagging_plugin ''limit'']) [] 7 []
     = (Inr [''limit'', ''upper''], [''result:limit'', ''result:upper''])"
    by (simp add: tagging_plugin_def)
  with run show ?thesis by simp
qed

text \<open>
  Claim C9. An executor constructed without a plugin argument holds \<open>NO_PLUGINS\<close>;
  its \<open>transformQuery\<close> returns the node it was given and its result chain returns
  the result it was given, and neither touches the world.
\<close>

theorem no_plugins_identity:
  "transformQuery (QueryExecutorBase_constructor None) captured n qid w = (Inr n, w)
   \<and> transformResult (QueryExecutorBase_constructor None) r qid w = (Inr r, w)"
  by (simp add: QueryExecutorBase_constructor_def NO_PLUGINS_def)

section \<open>The stack holder and its trace\<close>

lemma executeQuery_consumer_and_then:
  "executeQuery_consumer ps cq qid connection v =
     and_then (connection_executeQuery connection cq v) (\<lambda>raw. transformResult ps raw qid)"
  by (simp add: executeQuery_consumer_def and_then_def)

lemma same_failure_refl: "same_failure err err"
  by (cases err) simp_all

lemma isStackHolder_iff:
  "isStackHolder err =
     (\<exists>cls msg st access props. err = Object cls msg (JsString st) access props)"
proof (cases err)
  case (Primitive v)
  then show ?thesis by (simp add: isStackHolder_def)
next
  case (Object cls msg st access props)
  then show ?thesis by (cases st) (simp_all add: isStackHolder_def)
qed

lemma extendStackTrace_not_holder:
  "\<not> isStackHolder err \<Longrightarrow> extendStackTrace rt err = Inr err"
  by (simp add: extendStackTrace_def)

lemma extendStackTrace_no_fresh:
  "new_Error_stack rt = None \<or> new_Error_stack rt = Some [] \<Longrightarrow> extendStackTrace rt err = Inr err"
  by (auto simp: extendStackTrace_def)

lemma extendStackTrace_stores:
  assumes "isStackHolder err" and "stack_assignment err = Stores"
    and "new_Error_stack rt = Some fresh" and "fresh \<noteq> []"
  shows "\<exists>err'. extendStackTrace rt err = Inr err' \<and> same_failure err err'
           \<and> isStackHolder err'
           \<and> trace err' = trace err @ [newline] @ join [newline] (drop 1 (split newline fresh))"
proof -
  from assms(1) obtain cls msg st access props where
    "err = Object cls msg (JsString st) access props"
    by (auto simp: isStackHolder_iff)
  with assms(2) have err: "err = Object cls msg (JsString st) Stores props"
    by simp
  let ?err' = "Object cls msg
      (JsString (st @ [newline] @ join [newline] (drop 1 (split newline fresh)))) Stores props"
  from err assms(3,4) have "extendStackTrace rt err = Inr ?err'"
    by (simp add: extendStackTrace_def isStackHolder_def)
  moreover from err have "same_failure err ?err'" by simp
  moreover have "isStackHolder ?err'" by (simp add: isStackHolder_def)
  moreover from err
  have "trace ?err' = trace err @ [newline] @ join [newline] (drop 1 (split newline fresh))"
    by simp
  ultimately show ?thesis by blast
qed

lemma extendStackTrace_refuses:
  assumes "isStackHolder err" and "stack_assignment err = Refuses"
    and "new_Error_stack rt = Some fresh" and "fresh \<noteq> []"
  shows "extendStackTrace rt err = Inl (assignment_TypeError rt)"
proof -
  from assms(1) obtain cls msg st access props where
    "err = Object cls msg (JsString st) access props"
    by (auto simp: isStackHolder_iff)
  with assms(2) have "err = Object cls msg (JsString st) Refuses props"
    by simp
  with assms(3,4) show ?thesis
    by (simp add: extendStackTrace_def isStackHolder_def)
qed

lemma extendStackTrace_discards:
  assumes "stack_assignment err = Discards"
  shows "extendStackTrace rt err = Inr err"
proof (cases "isStackHolder err")
  case False
  then show ?thesis by (rule extendStackTrace_not_holder)
next
  case True
  then obtain cls msg st access props where
    "err = Object cls msg (JsString st) access props"
    by (auto simp: isStackHolder_iff)
  with assms have "err = Object cls msg (JsString st) Discards props"
    by simp
  then show ?thesis
    by (simp add: extendStackTrace_def isStackHolder_def Let_def split: option.splits)
qed

lemma split_newline_append:
  "split newline (a @ [newline] @ b) = split newline a @ split newline b"
  using split_append_sep [of newline a b] by simp

text \<open>
  Unless the assignment to the \<open>stack\<close> property is refused, what leaves the
  \<open>catch\<close> block is the failure that entered it, up to the trace, and a value that is
  no stack holder leaves as it is.
\<close>

lemma executeQuery_catch_same_failure:
  assumes "\<not> isStackHolder err \<or> stack_assignment err \<noteq> Refuses"
  shows "same_failure err (executeQuery_catch rt err)
         \<and> (if isStackHolder err then isStackHolder (executeQuery_catch rt err)
            else executeQuery_catch rt err = err)"
proof (cases "isStackHolder err")
  case False
  then show ?thesis
    by (simp add: executeQuery_catch_def extendStackTrace_not_holder same_failure_refl)
next
  case True
  with assms have allowed: "stack_assignment err \<noteq> Refuses" by simp
  show ?thesis
  proof (cases "new_Error_stack rt = None \<or> new_Error_stack rt = Some []")
    case True
    with \<open>isStackHolder err\<close> show ?thesis
      by (simp add: executeQuery_catch_def extendStackTrace_no_fresh same_failure_refl)
  next
    case False
    then obtain fresh where fresh: "new_Error_stack rt = Some fresh" "fresh \<noteq> []"
      by (cases "new_Error_stack rt") auto
    show ?thesis
    proof (cases "stack_assignment err")
      case Stores
      from extendStackTrace_stores [OF True Stores fresh] True show ?thesis
        by (auto simp: executeQuery_catch_def)
    next
      case Refuses
      with allowed show ?thesis by simp
    next
      case Discards
      with True show ?thesis
        by (simp add: executeQuery_catch_def extendStackTrace_discards same_failure_refl)
    qed
  qed
qed

lemma executeQuery_rethrows:
  assumes "provideConnection (executeQuery_consumer ps cq qid) w = (Inl err, w')"
    and "\<not> isStackHolder err \<or> stack_assignment err \<noteq> Refuses"
  shows "executeQuery provideConnection ps rt cq qid w = (Inl (executeQuery_catch rt err), w')
         \<and> same_failure err (executeQuery_catch rt err)
         \<and> (if isStackHolder err then isStackHolder (executeQuery_catch rt err)
            else executeQuery_catch rt err = err)"
  using assms(1) executeQuery_catch_same_failure [OF assms(2), of rt]
  by (simp add: executeQuery_def)

text \<open>
  A connection that throws an ordinary \<open>Error\<close>, and a provider that throws a number:
  the \<open>Error\<close> leaves with a longer trace and is otherwise the same, the number leaves
  as it is.
\<close>

lemma executeQuery_rethrows_example:
  "executeQuery (scoped_provider failing_connection) [tagging_plugin ''upper''] stack_runtime
       ''select'' 7 []
     = (Inl (Object ''Error'' ''boom''
          (JsString (''Error: boom'' @ [newline] @ ''    at run'' @ [newline]
             @ ''    at extendStackTrace'')) Stores []),
        [''acquire'', ''execute'', ''release''])
   \<and> executeQuery unavailable_provider [tagging_plugin ''upper''] stack_runtime
       ''select'' 7 []
     = (Inl (Primitive 42), [''acquire''])"
proof -
  have thrown: "scoped_provider failing_connection
      (executeQuery_consumer [tagging_plugin ''upper''] ''select'' (7::nat)) []
        = (Inl boom, [''acquire'', ''execute'', ''release''])"
    by (simp add: scoped_provider_def failing_connection_def executeQuery_consumer_def)
  have writable: "\<not> isStackHolder boom \<or> stack_assignment boom \<noteq> Refuses"
    by (simp add: boom_def)
  have extended: "executeQuery_catch stack_runtime boom =
      Object ''Error'' ''boom''
          (JsString (''Error: boom'' @ [newline] @ ''    at run'' @ [newline]
             @ ''    at extendStackTrace'')) Stores []"
    by (simp add: executeQuery_catch_def extendStackTrace_def isStackHolder_def boom_def
        stack_runtime_def captured_here_def newline_def)
  have unavailable: "unavailable_provider
      (executeQuery_consumer [tagging_plugin ''upper''] ''select'' (7::nat)) []
        = (Inl (Primitive 42), [''acquire''])"
    by (simp add: unavailable_provider_def)
  have primitive: "\<not> isStackHolder (Primitive 42 :: nat thrown)
      \<or> stack_assignment (Primitive 42 :: nat thrown) \<noteq> Refuses"
    by (simp add: isStackHolder_def)
  have unchanged: "executeQuery_catch stack_runtime (Primitive 42) = Primitive 42"
    by (simp add: executeQuery_catch_def extendStackTrace_def isStackHolder_def)
  from executeQuery_rethrows
      [where provideConnection = "scoped_provider failing_connection"
         and rt = stack_runtime, OF thrown writable]
    executeQuery_rethrows
      [where provideConnection = unavailable_provider
         and rt = stack_runtime, OF unavailable primitive]
    extended unchanged
  show ?thesis by simp
qed

section \<open>The claims about executing a query\<close>

text \<open>
  Claim C4. \<open>executeQuery\<close> calls \<open>provideConnection\<close> with the unit of work that
  executes the compiled query on the connection it is given and pushes the raw result,
  with the query identifier, through the result chain; a value that
  \<open>provideConnection\<close> produces is what \<open>executeQuery\<close> returns. The statement
  holds for every provider, which fixes the unit of work the provider is called with.
\<close>

theorem executeQuery_hands_over_unit_of_work:
  "executeQuery provideConnection ps rt cq qid w =
     (case provideConnection
             (\<lambda>connection v. and_then (connection_executeQuery connection cq v)
                (\<lambda>raw. transformResult ps raw qid)) w of
        (Inr result, w') \<Rightarrow> (Inr result, w')
      | (Inl err, w') \<Rightarrow> (Inl (executeQuery_catch rt err), w'))"
proof -
  have "executeQuery_consumer ps cq qid =
      (\<lambda>connection v. and_then (connection_executeQuery connection cq v)
         (\<lambda>raw. transformResult ps raw qid))"
    by (intro ext) (rule executeQuery_consumer_and_then)
  then show ?thesis
    by (simp only: executeQuery_def)
qed

text \<open>
  With a provider that logs acquisition and release: the query is executed between the
  two, then the plugins transform the result in order.
\<close>

theorem executeQuery_hands_over_unit_of_work_witness:
  "executeQuery (scoped_provider echo_connection)
       [tagging_plugin ''upper'', tagging_plugin ''limit''] bare_runtime ''select'' 7 []
     = (Inr [''select'', ''upper'', ''limit''],
        [''acquire'', ''execute'', ''result:upper'', ''result:limit'', ''release''])"
proof -
  have "scoped_provider echo_connection
          (\<lambda>connection v. and_then (connection_executeQuery connection ''select'' v)
             (\<lambda>raw. transformResult [tagging_plugin ''upper'', tagging_plugin ''limit''] raw (7::nat))) []
      = (Inr [''select'', ''upper'', ''limit''],
        [''acquire'', ''execute'', ''result:upper'', ''result:limit'', ''release''])"
    by (simp add: scoped_provider_def echo_connection_def tagging_plugin_def)
  with executeQuery_hands_over_unit_of_work
    [of "scoped_provider echo_connection" "[tagging_plugin ''upper'', tagging_plugin ''limit'']"
        bare_runtime "''select''" 7 "[]"]
  show ?thesis by simp
qed

text \<open>
  Claim C5 says that every failure leaves \<open>executeQuery\<close> as the failure it was, with
  at most its trace changed. The source does not do this for a stack holder that refuses
  the assignment of line 118, \<open>err.stack += ...\<close>, which is made without a test: the
  assignment throws inside the \<open>catch\<close> block, and the \<open>TypeError\<close> leaves in place
  of the failure. The run: the connection throws a frozen \<open>Error\<close>, the runtime gives
  \<open>new Error()\<close> a stack; what leaves is the \<open>TypeError\<close>, which is not the failure
  that was thrown.
\<close>

theorem executeQuery_replaces_frozen_failure:
  "isStackHolder frozen_boom
   \<and> executeQuery (scoped_provider throwing_frozen_connection) [tagging_plugin ''upper'']
         stack_runtime ''select'' 7 []
       = (Inl read_only_stack, [''acquire'', ''execute'', ''release''])
   \<and> \<not> same_failure frozen_boom read_only_stack"
proof (intro conjI)
  show "isStackHolder frozen_boom"
    by (simp add: isStackHolder_def frozen_boom_def)
next
  have thrown: "scoped_provider throwing_frozen_connection
      (executeQuery_consumer [tagging_plugin ''upper''] ''select'' (7::nat)) []
        = (Inl frozen_boom, [''acquire'', ''execute'', ''release''])"
    by (simp add: scoped_provider_def throwing_frozen_connection_def executeQuery_consumer_def)
  have "extendStackTrace stack_runtime frozen_boom = Inl read_only_stack"
    by (simp add: extendStackTrace_def isStackHolder_def frozen_boom_def stack_runtime_def
        captured_here_def)
  with thrown show "executeQuery (scoped_provider throwing_frozen_connection)
        [tagging_plugin ''upper''] stack_runtime ''select'' 7 []
       = (Inl read_only_stack, [''acquire'', ''execute'', ''release''])"
    by (simp add: executeQuery_def executeQuery_catch_def)
next
  show "\<not> same_failure frozen_boom read_only_stack"
    by (simp add: frozen_boom_def read_only_stack_def)
qed

text \<open>
  Claim C6, as the source has it. The claim as stated fails in a runtime that gives
  \<open>new Error()\<close> no stack, or an empty one: \<open>extendStackTrace\<close> tests for this and
  returns the failure as it is. The run below has such a runtime; the trace that leaves
  \<open>executeQuery\<close> has no more lines than the trace that was thrown.
\<close>

theorem trace_unchanged_without_fresh_stack:
  "executeQuery (scoped_provider failing_connection) [tagging_plugin ''upper''] bare_runtime
       ''select'' 7 []
     = (Inl boom, [''acquire'', ''execute'', ''release''])
   \<and> \<not> length (trace_lines boom)
       < length (trace_lines (projl (fst
           (executeQuery (scoped_provider failing_connection) [tagging_plugin ''upper'']
              bare_runtime ''select'' 7 []))))"
proof -
  have "executeQuery (scoped_provider failing_connection) [tagging_plugin ''upper''] bare_runtime
       ''select'' 7 []
     = (Inl boom, [''acquire'', ''execute'', ''release''])"
    by (simp add: executeQuery_def scoped_provider_def failing_connection_def
        executeQuery_consumer_def executeQuery_catch_def extendStackTrace_def bare_runtime_def)
  then show ?thesis by simp
qed

text \<open>
  Claim C6, amended. When a stack holder whose \<open>stack\<close> property stores what is
  assigned to it is caught, and the freshly captured trace is a non-empty string, the
  failure that leaves \<open>executeQuery\<close> is the same failure, and its trace is the
  original trace, a newline, and the fresh trace without its first line. Its lines are
  the lines of the original followed by the lines of the fresh trace after the first (by
  one empty line if the fresh trace has a single line), so it has strictly more lines
  than the original. When the runtime gives no fresh trace, or an empty one, the failure
  leaves unchanged. Nothing is said of a stack holder whose \<open>stack\<close> property does not
  store what is assigned to it.
\<close>

theorem executeQuery_extends_trace:
  assumes "provideConnection (executeQuery_consumer ps cq qid) w = (Inl err, w')"
    and "isStackHolder err"
    and "stack_assignment err = Stores"
    and "new_Error_stack rt = Some fresh"
    and "fresh \<noteq> []"
  shows "\<exists>err'. executeQuery provideConnection ps rt cq qid w = (Inl err', w')
           \<and> same_failure err err'
           \<and> trace err' = trace err @ [newline] @ join [newline] (drop 1 (split newline fresh))
           \<and> trace_lines err' =
               trace_lines err @
                 (case drop 1 (split newline fresh) of [] \<Rightarrow> [[]] | l # ls \<Rightarrow> l # ls)
           \<and> length (trace_lines err) < length (trace_lines err')
           \<and> executeQuery provideConnection ps (rt\<lparr>new_Error_stack := None\<rparr>) cq qid w
               = (Inl err, w')
           \<and> executeQuery provideConnection ps (rt\<lparr>new_Error_stack := Some []\<rparr>) cq qid w
               = (Inl err, w')"
proof -
  from extendStackTrace_stores [OF assms(2-5)] obtain err' where
    ext: "extendStackTrace rt err = Inr err'" and same: "same_failure err err'" and
    tr: "trace err' = trace err @ [newline] @ join [newline] (drop 1 (split newline fresh))"
    by blast
  from assms(1) ext have out: "executeQuery provideConnection ps rt cq qid w = (Inl err', w')"
    by (simp add: executeQuery_def executeQuery_catch_def)
  from tr have "trace_lines err' = trace_lines err @
      split newline (join [newline] (drop 1 (split newline fresh)))"
    by (simp only: trace_lines_def split_newline_append)
  then have lines: "trace_lines err' = trace_lines err @
      (case drop 1 (split newline fresh) of [] \<Rightarrow> [[]] | l # ls \<Rightarrow> l # ls)"
    by (simp only: split_extension)
  then have more: "length (trace_lines err) < length (trace_lines err')"
    by (simp split: list.splits)
  from assms(1)
  have none: "executeQuery provideConnection ps (rt\<lparr>new_Error_stack := None\<rparr>) cq qid w
      = (Inl err, w')"
    by (simp add: executeQuery_def executeQuery_catch_def extendStackTrace_no_fresh)
  from assms(1)
  have empty: "executeQuery provideConnection ps (rt\<lparr>new_Error_stack := Some []\<rparr>) cq qid w
      = (Inl err, w')"
    by (simp add: executeQuery_def executeQuery_catch_def extendStackTrace_no_fresh)
  from out same tr lines more none empty show ?thesis by blast
qed

theorem executeQuery_extends_trace_witness:
  "\<exists>err'. executeQuery (scoped_provider failing_connection) [tagging_plugin ''upper'']
             stack_runtime ''select'' 7 []
             = (Inl err', [''acquire'', ''execute'', ''release''])
     \<and> trace_lines err' = [''Error: boom'', ''    at run'', ''    at extendStackTrace'']
     \<and> length (trace_lines boom) < length (trace_lines err')"
proof -
  have thrown: "scoped_provider failing_connection
      (executeQuery_consumer [tagging_plugin ''upper''] ''select'' (7::nat)) []
        = (Inl boom, [''acquire'', ''execute'', ''release''])"
    by (simp add: scoped_provider_def failing_connection_def executeQuery_consumer_def)
  have holder: "isStackHolder boom"
    by (simp add: isStackHolder_def boom_def)
  have stores: "stack_assignment boom = Stores"
    by (simp add: boom_def)
  have captured: "new_Error_stack stack_runtime = Some captured_here"
    by (simp add: stack_runtime_def)
  have fresh: "captured_here \<noteq> []"
    by (simp add: captured_here_def)
  have old: "trace_lines boom = [''Error: boom'', ''    at run'']"
    by (simp add: trace_lines_def boom_def newline_def)
  have ext: "drop 1 (split newline captured_here) = [''    at extendStackTrace'']"
    by (simp add: captured_here_def newline_def)
  from executeQuery_extends_trace
      [where provideConnection = "scoped_provider failing_connection" and rt = stack_runtime,
        OF thrown holder stores captured fresh]
  obtain err' where
    "executeQuery (scoped_provider failing_connection) [tagging_plugin ''upper'']
         stack_runtime ''select'' 7 []
       = (Inl err', [''acquire'', ''execute'', ''release''])"
    "trace_lines err' = trace_lines boom @
      (case drop 1 (split newline captured_here) of [] \<Rightarrow> [[]] | l # ls \<Rightarrow> l # ls)"
    "length (trace_lines boom) < length (trace_lines err')"
    by blast
  with old ext show ?thesis by simp
qed



section \<open>The claim about deriving executors\<close>

lemma derive_derived_from:
  assumes "plugins this heap = Some ps"
  shows "derived_from this heap (derive f this heap) (f ps)"
proof -
  from assms have valid: "this < length heap" and held: "hash_plugins (heap ! this) = ps"
    by (simp_all add: plugins_def split: if_splits)
  then show ?thesis
    by (simp add: derived_from_def derive_def plugins_def nth_append)
qed

lemma derive_extends:
  "derive f this heap = Some (new, heap') \<Longrightarrow> take (length heap) heap' = heap"
  by (auto simp: derive_def split: if_splits)

lemma call_extends:
  "call d this heap = Some (new, heap') \<Longrightarrow> take (length heap) heap' = heap"
  by (cases d)
    (simp_all add: withPlugin_def withPlugins_def withPluginAtFront_def withoutPlugins_def
      derive_extends)

lemma calls_extend: "take (length heap) (calls cs heap) = heap"
proof (induction cs arbitrary: heap)
  case Nil
  show ?case by simp
next
  case (Cons c cs)
  obtain d this where c: "c = (d, this)" by (cases c)
  show ?case
  proof (cases "call d this heap")
    case None
    with c Cons.IH [of heap] show ?thesis by simp
  next
    case (Some r)
    obtain new heap' where r: "r = (new, heap')" by (cases r)
    from Some r have grown: "take (length heap) heap' = heap"
      by (simp add: call_extends)
    then have "length heap \<le> length heap'"
      by (metis length_take min.cobounded1)
    then have "take (length heap) (calls cs heap') = take (length heap) (take (length heap') (calls cs heap'))"
      by (simp add: min.absorb1)
    also have "\<dots> = take (length heap) heap'"
      by (simp only: Cons.IH)
    finally show ?thesis
      using c Some r grown by simp
  qed
qed

lemma take_plugins:
  assumes "take (length heap) heap' = heap" and "this < length heap"
  shows "plugins this heap' = plugins this heap"
proof -
  from assms(1) have "length heap \<le> length heap'"
    by (metis length_take min.cobounded1)
  moreover from assms have "heap' ! this = heap ! this"
    by (metis nth_take)
  ultimately show ?thesis
    using assms(2) by (simp add: plugins_def)
qed

text \<open>
  Claim C8. Each of \<open>withPlugin\<close>, \<open>withPlugins\<close>, \<open>withPluginAtFront\<close> and
  \<open>withoutPlugins\<close>, called on an executor, returns a new object with the derived
  plugin sequence and the receiver's compiler, adapter and connection provider, and
  leaves every object of the heap as it was. After any run of derivations, on whatever
  receivers, the executor still has the plugin sequence it had.
\<close>

theorem derivations_leave_receiver_unchanged:
  assumes "plugins this heap = Some ps"
  shows "derived_from this heap (withPlugin p this heap) (ps @ [p])
         \<and> derived_from this heap (withPlugins qs this heap) qs
         \<and> derived_from this heap (withPluginAtFront p this heap) (p # ps)
         \<and> derived_from this heap (withoutPlugins this heap) []
         \<and> plugins this (calls cs heap) = Some ps"
proof -
  note derived = derive_derived_from [OF assms]
  from assms have "this < length heap"
    by (simp add: plugins_def split: if_splits)
  with calls_extend [of heap cs] have "plugins this (calls cs heap) = plugins this heap"
    by (rule take_plugins)
  with assms derived [of "\<lambda>ps. ps @ [p]"] derived [of "\<lambda>ps. qs"]
    derived [of "\<lambda>ps. p # ps"] derived [of "\<lambda>ps. []"]
  show ?thesis
    by (simp add: withPlugin_def withPlugins_def withPluginAtFront_def withoutPlugins_def)
qed

text \<open>
  An executor constructed with one plugin, then a few derivations on it and on what was
  derived from it.
\<close>

theorem derivations_leave_receiver_unchanged_witness:
  "withPlugin (2::nat) 0 (snd (new_executor ''compiler'' ''adapter'' ''provider'' (Some [1]) []))
     = Some (1,
        [\<lparr>hash_plugins = [1], compiler = ''compiler'', adapter = ''adapter'',
           connectionProvider = ''provider''\<rparr>,
         \<lparr>hash_plugins = [1, 2], compiler = ''compiler'', adapter = ''adapter'',
           connectionProvider = ''provider''\<rparr>])
   \<and> derived_from 0 (snd (new_executor ''compiler'' ''adapter'' ''provider'' (Some [1::nat]) []))
       (withoutPlugins 0 (snd (new_executor ''compiler'' ''adapter'' ''provider'' (Some [1]) []))) []
   \<and> plugins 0 (calls [(WithPlugin 2, 0), (WithoutPlugins, 1), (WithPluginAtFront 3, 0)]
        (snd (new_executor ''compiler'' ''adapter'' ''provider'' (Some [1::nat]) [])))
       = Some [1]"
proof -
  have held: "plugins 0 (snd (new_executor ''compiler'' ''adapter'' ''provider'' (Some [1::nat]) []))
      = Some [1]"
    by (simp add: plugins_def new_executor_def QueryExecutorBase_constructor_def)
  have "withPlugin (2::nat) 0 (snd (new_executor ''compiler'' ''adapter'' ''provider'' (Some [1]) []))
     = Some (1,
        [\<lparr>hash_plugins = [1], compiler = ''compiler'', adapter = ''adapter'',
           connectionProvider = ''provider''\<rparr>,
         \<lparr>hash_plugins = [1, 2], compiler = ''compiler'', adapter = ''adapter'',
           connectionProvider = ''provider''\<rparr>])"
    by (simp add: withPlugin_def derive_def new_executor_def QueryExecutorBase_constructor_def)
  moreover from derivations_leave_receiver_unchanged
    [OF held, where cs = "[(WithPlugin 2, 0), (WithoutPlugins, 1), (WithPluginAtFront 3, 0)]"]
  have "derived_from 0 (snd (new_executor ''compiler'' ''adapter'' ''provider'' (Some [1::nat]) []))
       (withoutPlugins 0 (snd (new_executor ''compiler'' ''adapter'' ''provider'' (Some [1]) []))) []"
    and "plugins 0 (calls [(WithPlugin 2, 0), (WithoutPlugins, 1), (WithPluginAtFront 3, 0)]
        (snd (new_executor ''compiler'' ''adapter'' ''provider'' (Some [1::nat]) [])))
       = Some [1]"
    by blast+
  ultimately show ?thesis by blast
qed

end
